theory Spec2Isabelle
  imports Main
begin

section \<open>Data model\<close>

text \<open>
  A class (constructor function) is identified by its name together with its superclass
  chain. \<open>Base n\<close> is a class without a user-defined superclass, \<open>Extends n p\<close> is
  \<^verbatim>\<open>class n extends p\<close>. The prototype of the constructor \<open>Extends n p\<close> is the
  constructor \<open>p\<close>; the chain is finite and acyclic by construction, as in the language.
\<close>

datatype ctor = Base string | Extends string ctor

text \<open>The enumeration \<^verbatim>\<open>EMetaDataKey\<close> of ReflectUtils.ts.\<close>

datatype EMetaDataKey = AreFieldsApplied | Collection | Fields | ObjectType | UnpackedFields

text \<open>Values a field may carry as its default (\<^verbatim>\<open>defaultValue: any\<close>).\<close>

datatype jsvalue = JUndefined | JNull | JBool bool | JNum int | JStr string

text \<open>
  Field descriptors. The properties shared by the raw descriptor (\<^verbatim>\<open>IFieldMeta\<close>) and the
  resolved one (\<^verbatim>\<open>IUnpackedFieldMeta\<close>) are in \<open>FieldBase\<close>. The raw descriptor is the
  object literal built by the \<^verbatim>\<open>Field\<close> decorator, which has the property
  \<^verbatim>\<open>isIdentifier\<close>; \<^verbatim>\<open>addOwnField\<close> reads the property \<^verbatim>\<open>isPrimary\<close> of a raw
  descriptor, which that literal does not have. \<open>isPrimaryRaw\<close> is this property of the raw
  object: \<open>None\<close> when the object has no such property (reading it gives
  \<^verbatim>\<open>undefined\<close>).
\<close>

record FieldBase =
  classPropertyName :: string
  dbPropertyName :: string
  defaultValue :: jsvalue
  isNullable :: bool
  fieldType :: string

record IFieldMeta = FieldBase +
  isIdentifier :: bool
  isPrimaryRaw :: "bool option"

record IUnpackedFieldMeta = FieldBase +
  isPrimary :: bool

text \<open>The values of \<^verbatim>\<open>IMetaValuesMap\<close>: one constructor per value type.\<close>

datatype meta_value =
    MBool bool
  | MString string
  | MFields "IFieldMeta list"
  | MUnpacked "IUnpackedFieldMeta list"

text \<open>
  A property descriptor as passed to \<^verbatim>\<open>Object.defineProperty\<close>; \<open>None\<close> is a field
  that the descriptor object does not have. The getter and the setter installed by
  \<^verbatim>\<open>applyFields\<close> are closures over \<^verbatim>\<open>f.dbPropertyName\<close>; they are represented by that
  name.
\<close>

record PropertyDescriptor =
  desc_get :: "string option"
  desc_set :: "string option"
  desc_value :: "jsvalue option"
  desc_writable :: "bool option"
  desc_enumerable :: "bool option"
  desc_configurable :: "bool option"

datatype field_ref = Raw IFieldMeta | Unpacked IUnpackedFieldMeta

datatype error =
    PropertyAlreadyDefinedError IFieldMeta IFieldMeta
  | PrimaryKeyAlreadyDefinedError ctor field_ref field_ref
  | ModelNotFoundError ctor
  | EmptyFieldsListError ctor
  | PrimaryKeyNotDefinedError ctor
  | TypeError

text \<open>\<^verbatim>\<open>IModelInformation\<close>; its property \<^verbatim>\<open>fields\<close> is \<open>allFields\<close> here.\<close>

record IModelInformation =
  collection :: string
  primaryField :: IUnpackedFieldMeta
  allFields :: "IUnpackedFieldMeta list"

text \<open>
  The program state: the metadata attached by \<^verbatim>\<open>reflect-metadata\<close> to
  (target, property key, metadata key), the own properties of each class's prototype
  object, and a probe \<open>unpackRuns\<close> that counts, per class, how often the resolution
  mapping \<^verbatim>\<open>getOwnFields(target).map(unpackField)\<close> has been run. The probe is
  observation only; no operation reads it.
\<close>

record state =
  metadata :: "ctor \<times> string option \<times> EMetaDataKey \<Rightarrow> meta_value option"
  prototype :: "ctor \<Rightarrow> string \<Rightarrow> PropertyDescriptor option"
  unpackRuns :: "ctor \<Rightarrow> nat"

definition initial :: state where
  "initial = \<lparr>metadata = (\<lambda>_. None), prototype = (\<lambda>_ _. None), unpackRuns = (\<lambda>_. 0)\<rparr>"

section \<open>The reflect-metadata library and the language primitives used\<close>

text \<open>
  \<^verbatim>\<open>Reflect.defineMetadata(key, value, target[, propertyKey])\<close> defines own metadata
  of the target.
\<close>

definition Reflect_defineMetadata ::
  "EMetaDataKey \<Rightarrow> meta_value \<Rightarrow> ctor \<Rightarrow> string option \<Rightarrow> state \<Rightarrow> state" where
  "Reflect_defineMetadata key v target propertyKey s =
     s\<lparr>metadata := (metadata s)((target, propertyKey, key) \<mapsto> v)\<rparr>"

text \<open>
  \<^verbatim>\<open>Reflect.getMetadata(key, target[, propertyKey])\<close> is the library's
  OrdinaryGetMetadata: the own metadata of the target if it has any for the key, otherwise
  the result for the target's prototype, which for a class constructor is its superclass;
  \<open>None\<close> is \<^verbatim>\<open>undefined\<close>. (The own-only lookup of the library is
  \<^verbatim>\<open>Reflect.getOwnMetadata\<close>, which ReflectUtils.ts does not call.)
\<close>

primrec Reflect_getMetadata ::
  "state \<Rightarrow> EMetaDataKey \<Rightarrow> ctor \<Rightarrow> string option \<Rightarrow> meta_value option" where
  "Reflect_getMetadata s key (Base n) propertyKey = metadata s (Base n, propertyKey, key)"
| "Reflect_getMetadata s key (Extends n p) propertyKey =
     (case metadata s (Extends n p, propertyKey, key) of
        Some v \<Rightarrow> Some v
      | None \<Rightarrow> Reflect_getMetadata s key p propertyKey)"

text \<open>\<^verbatim>\<open>Reflect.hasMetadata\<close> walks the same chain (OrdinaryHasMetadata).\<close>

definition Reflect_hasMetadata ::
  "state \<Rightarrow> EMetaDataKey \<Rightarrow> ctor \<Rightarrow> string option \<Rightarrow> bool" where
  "Reflect_hasMetadata s key target propertyKey =
     (Reflect_getMetadata s key target propertyKey \<noteq> None)"

text \<open>JavaScript truthiness of a stored value: \<^verbatim>\<open>false\<close> and \<^verbatim>\<open>''\<close> are falsy, arrays are truthy.\<close>

fun truthy :: "meta_value \<Rightarrow> bool" where
  "truthy (MBool b) = b"
| "truthy (MString str) = (str \<noteq> [])"
| "truthy (MFields fs) = True"
| "truthy (MUnpacked us) = True"

text \<open>
  \<^verbatim>\<open>Object.defineProperty(obj, name, desc)\<close> on the own properties \<open>obj\<close> of an object.
  ToPropertyDescriptor throws a TypeError when the descriptor has a \<^verbatim>\<open>get\<close> or
  \<^verbatim>\<open>set\<close> field together with a \<^verbatim>\<open>value\<close> or \<^verbatim>\<open>writable\<close> field (whatever
  their values). An existing property that is not configurable cannot be redefined with
  new accessor functions: TypeError as well.
\<close>

definition Object_defineProperty ::
  "(string \<Rightarrow> PropertyDescriptor option) \<Rightarrow> string \<Rightarrow> PropertyDescriptor
     \<Rightarrow> error + (string \<Rightarrow> PropertyDescriptor option)" where
  "Object_defineProperty obj name desc =
     (if (desc_get desc \<noteq> None \<or> desc_set desc \<noteq> None)
          \<and> (desc_value desc \<noteq> None \<or> desc_writable desc \<noteq> None)
      then Inl TypeError
      else (case obj name of
              None \<Rightarrow> Inr (obj(name \<mapsto> desc))
            | Some old \<Rightarrow>
                if desc_configurable old = Some True then Inr (obj(name \<mapsto> desc))
                else Inl TypeError))"

section \<open>Helpers of the repository that are imported by ReflectUtils.ts\<close>

text \<open>
  Modelled from the spec: \<^verbatim>\<open>whileHasParentConstructor\<close> (in ../utils, not among the
  sources). "Given a starting class, produce a sequence of classes consisting of the class
  itself followed by each ancestor in the constructor chain, stopping at the root. For
  each class in that sequence, invoke a supplied visitor." The visitor's effect is a
  function on an accumulator.
\<close>

primrec whileHasParentConstructor :: "ctor \<Rightarrow> (ctor \<Rightarrow> 'a \<Rightarrow> 'a) \<Rightarrow> 'a \<Rightarrow> 'a" where
  "whileHasParentConstructor (Base n) f acc = f (Base n) acc"
| "whileHasParentConstructor (Extends n p) f acc =
     whileHasParentConstructor p f (f (Extends n p) acc)"

text \<open>
  Modelled from the spec: \<^verbatim>\<open>unpackField\<close> (in ../utils, not among the sources). The
  resolution function "applies nullable default, copies dbPropertyName/defaultValue/type,
  normalizes isIdentifier into isPrimary".
\<close>

definition unpackField :: "IFieldMeta \<Rightarrow> IUnpackedFieldMeta" where
  "unpackField f =
     \<lparr>classPropertyName = classPropertyName f,
      dbPropertyName = dbPropertyName f,
      defaultValue = defaultValue f,
      isNullable = isNullable f,
      fieldType = fieldType f,
      isPrimary = isIdentifier f\<rparr>"

section \<open>ReflectUtils\<close>

text \<open>\<^verbatim>\<open>get\<close>: the library lookup, with every falsy result replaced by \<^verbatim>\<open>null\<close> (\<open>None\<close>).\<close>

definition get :: "state \<Rightarrow> EMetaDataKey \<Rightarrow> ctor \<Rightarrow> string option \<Rightarrow> meta_value option" where
  "get s key target propertyKey =
     (case Reflect_getMetadata s key target propertyKey of
        None \<Rightarrow> None
      | Some v \<Rightarrow> if truthy v then Some v else None)"

definition has :: "state \<Rightarrow> EMetaDataKey \<Rightarrow> ctor \<Rightarrow> string option \<Rightarrow> bool" where
  "has s key target propertyKey = Reflect_hasMetadata s key target propertyKey"

definition set_meta ::
  "EMetaDataKey \<Rightarrow> meta_value \<Rightarrow> ctor \<Rightarrow> string option \<Rightarrow> state \<Rightarrow> state" where
  "set_meta key v target propertyKey s = Reflect_defineMetadata key v target propertyKey s"

text \<open>
  \<^verbatim>\<open>getOwnFields\<close>: \<^verbatim>\<open>this.get(EMetaDataKey.Fields, target) || []\<close>. By the typing of
  \<^verbatim>\<open>IMetaValuesMap\<close> a value found under \<^verbatim>\<open>Fields\<close> is a list of raw descriptors.
\<close>

definition getOwnFields :: "state \<Rightarrow> ctor \<Rightarrow> IFieldMeta list" where
  "getOwnFields s target =
     (case get s Fields target None of Some (MFields fs) \<Rightarrow> fs | _ \<Rightarrow> [])"

definition getFields :: "state \<Rightarrow> ctor \<Rightarrow> IFieldMeta list" where
  "getFields s target =
     whileHasParentConstructor target (\<lambda>ctr fs. fs @ getOwnFields s ctr) []"

text \<open>
  The body of \<^verbatim>\<open>fields.forEach\<close> in \<^verbatim>\<open>addOwnField\<close>: the first element that raises
  ends the loop; within one element the primary-key test comes first. A property that is
  \<^verbatim>\<open>undefined\<close> is falsy.
\<close>

fun checkFields :: "ctor \<Rightarrow> IFieldMeta \<Rightarrow> IFieldMeta list \<Rightarrow> error option" where
  "checkFields target fieldMeta [] = None"
| "checkFields target fieldMeta (f # fs) =
     (if isPrimaryRaw f = Some True \<and> isPrimaryRaw fieldMeta = Some True
      then Some (PrimaryKeyAlreadyDefinedError target (Raw f) (Raw fieldMeta))
      else if classPropertyName f = classPropertyName fieldMeta
      then Some (PropertyAlreadyDefinedError f fieldMeta)
      else checkFields target fieldMeta fs)"

definition addOwnField :: "state \<Rightarrow> ctor \<Rightarrow> IFieldMeta \<Rightarrow> (error + unit) \<times> state" where
  "addOwnField s target fieldMeta =
     (case checkFields target fieldMeta (getFields s target) of
        Some e \<Rightarrow> (Inl e, s)
      | None \<Rightarrow>
          (Inr (), set_meta Fields (MFields (getOwnFields s target @ [fieldMeta])) target None s))"

text \<open>
  \<^verbatim>\<open>getUnpackedOwnFields\<close>. A value found under \<^verbatim>\<open>UnpackedFields\<close> is returned as it is;
  by the typing of \<^verbatim>\<open>IMetaValuesMap\<close> it is a list of resolved descriptors.
\<close>

fun asUnpacked :: "meta_value \<Rightarrow> IUnpackedFieldMeta list" where
  "asUnpacked (MUnpacked us) = us"
| "asUnpacked _ = []"

definition getUnpackedOwnFields :: "state \<Rightarrow> ctor \<Rightarrow> IUnpackedFieldMeta list \<times> state" where
  "getUnpackedOwnFields s target =
     (case get s UnpackedFields target None of
        None \<Rightarrow>
          (let unpacked = map unpackField (getOwnFields s target)
           in (unpacked,
               set_meta UnpackedFields (MUnpacked unpacked) target None
                 (s\<lparr>unpackRuns := (unpackRuns s)(target := Suc (unpackRuns s target))\<rparr>)))
      | Some v \<Rightarrow> (asUnpacked v, s))"

definition getUnpackedFields :: "state \<Rightarrow> ctor \<Rightarrow> IUnpackedFieldMeta list \<times> state" where
  "getUnpackedFields s target =
     whileHasParentConstructor target
       (\<lambda>ctr (fs, s'). case getUnpackedOwnFields s' ctr of (us, s'') \<Rightarrow> (fs @ us, s''))
       ([], s)"

text \<open>
  The body of \<^verbatim>\<open>fields.forEach\<close> in \<^verbatim>\<open>applyFields\<close> on the prototype's own properties:
  properties defined before a throw stay defined.
\<close>

fun defineAccessors ::
  "(string \<Rightarrow> PropertyDescriptor option) \<Rightarrow> IUnpackedFieldMeta list
     \<Rightarrow> error option \<times> (string \<Rightarrow> PropertyDescriptor option)" where
  "defineAccessors proto [] = (None, proto)"
| "defineAccessors proto (f # fs) =
     (case Object_defineProperty proto (classPropertyName f)
             \<lparr>desc_get = Some (dbPropertyName f),
              desc_set = Some (dbPropertyName f),
              desc_value = None,
              desc_writable = Some False,
              desc_enumerable = Some True,
              desc_configurable = Some False\<rparr> of
        Inl e \<Rightarrow> (Some e, proto)
      | Inr proto' \<Rightarrow> defineAccessors proto' fs)"

definition applyFields :: "state \<Rightarrow> ctor \<Rightarrow> (error + unit) \<times> state" where
  "applyFields s target =
     (if get s AreFieldsApplied target None = Some (MBool True) then (Inr (), s)
      else (case getUnpackedFields s target of
              (fs, s1) \<Rightarrow>
                (case defineAccessors (prototype s1 target) fs of
                   (Some e, proto') \<Rightarrow>
                     (Inl e, s1\<lparr>prototype := (prototype s1)(target := proto')\<rparr>)
                 | (None, proto') \<Rightarrow>
                     (Inr (),
                      set_meta AreFieldsApplied (MBool True) target None
                        (s1\<lparr>prototype := (prototype s1)(target := proto')\<rparr>)))))"

text \<open>The \<^verbatim>\<open>for\<close> loop of \<^verbatim>\<open>collectModelInformation\<close> with its variable
  \<^verbatim>\<open>primaryField\<close> (\<open>prim\<close>; \<open>None\<close> is \<^verbatim>\<open>undefined\<close>).\<close>

fun findPrimary ::
  "ctor \<Rightarrow> IUnpackedFieldMeta option \<Rightarrow> IUnpackedFieldMeta list
     \<Rightarrow> error + IUnpackedFieldMeta option" where
  "findPrimary target prim [] = Inr prim"
| "findPrimary target prim (f # fs) =
     (if isPrimary f
      then (case prim of
              Some p \<Rightarrow> Inl (PrimaryKeyAlreadyDefinedError target (Unpacked p) (Unpacked f))
            | None \<Rightarrow> findPrimary target (Some f) fs)
      else findPrimary target prim fs)"

fun asString :: "meta_value \<Rightarrow> string" where
  "asString (MString str) = str"
| "asString _ = []"

definition collectModelInformation :: "state \<Rightarrow> ctor \<Rightarrow> (error + IModelInformation) \<times> state" where
  "collectModelInformation s target =
     (case get s Collection target None of
        None \<Rightarrow> (Inl (ModelNotFoundError target), s)
      | Some c \<Rightarrow>
          (case getUnpackedFields s target of
             (fs, s1) \<Rightarrow>
               if length fs = 0 then (Inl (EmptyFieldsListError target), s1)
               else (case findPrimary target None fs of
                       Inl e \<Rightarrow> (Inl e, s1)
                     | Inr None \<Rightarrow> (Inl (PrimaryKeyNotDefinedError target), s1)
                     | Inr (Some p) \<Rightarrow>
                         (Inr \<lparr>collection = asString c, primaryField = p, allFields = fs\<rparr>, s1))))"

definition defineModel :: "state \<Rightarrow> ctor \<Rightarrow> string \<Rightarrow> state" where
  "defineModel s target coll =
     set_meta ObjectType (MString ''model'') target None
       (set_meta Collection (MString coll) target None s)"

definition defineDataMapper :: "state \<Rightarrow> ctor \<Rightarrow> state" where
  "defineDataMapper s target = set_meta ObjectType (MString ''data-mapper'') target None s"

definition isModel :: "state \<Rightarrow> ctor \<Rightarrow> bool" where
  "isModel s target = (get s ObjectType target None = Some (MString ''model''))"

definition isDataMapper :: "state \<Rightarrow> ctor \<Rightarrow> bool" where
  "isDataMapper s target = (get s ObjectType target None = Some (MString ''data-mapper''))"

text \<open>
  \<^verbatim>\<open>isCompleteModel\<close> reads the keys \<^verbatim>\<open>ModelMeta\<close> and \<^verbatim>\<open>ModelFields\<close>, which the
  enumeration does not have, and \<^verbatim>\<open>getReflectedType\<close> reads the compiler's
  \<^verbatim>\<open>design:type\<close> entry; no statement below is about them.
\<close>

section \<open>The Field decorator\<close>

text \<open>
  The options object of \<^verbatim>\<open>Field\<close>; \<open>None\<close> is a property the caller left out. The type
  reflected from the declaration (\<^verbatim>\<open>getReflectedSupportedType\<close>, not among the sources)
  is a parameter.
\<close>

record TAnyFieldOptions =
  opt_type :: "string option"
  opt_nullable :: "bool option"
  opt_name :: "string option"
  opt_defaultValue :: "jsvalue option"
  opt_id :: "bool option"

definition Field ::
  "string \<Rightarrow> TAnyFieldOptions option \<Rightarrow> ctor \<Rightarrow> string \<Rightarrow> state \<Rightarrow> (error + unit) \<times> state" where
  "Field reflectedType typeOrOptions Model propertyKey s =
     (case typeOrOptions of
        None \<Rightarrow>
          addOwnField s Model
            \<lparr>classPropertyName = propertyKey,
             dbPropertyName = propertyKey,
             defaultValue = JUndefined,
             isNullable = True,
             fieldType = reflectedType,
             isIdentifier = False,
             isPrimaryRaw = None\<rparr>
      | Some opts \<Rightarrow>
          addOwnField s Model
            \<lparr>classPropertyName = propertyKey,
             dbPropertyName = (case opt_name opts of None \<Rightarrow> propertyKey | Some n \<Rightarrow> n),
             defaultValue = (case opt_defaultValue opts of None \<Rightarrow> JUndefined | Some d \<Rightarrow> d),
             isNullable = (case opt_nullable opts of None \<Rightarrow> True | Some b \<Rightarrow> b),
             fieldType = (case opt_type opts of None \<Rightarrow> reflectedType | Some t \<Rightarrow> t),
             isIdentifier = (case opt_id opts of None \<Rightarrow> False | Some b \<Rightarrow> b),
             isPrimaryRaw = None\<rparr>)"

section \<open>Sequences of calls\<close>

text \<open>The class itself followed by its ancestors: the classes a lookup or a walk can reach.\<close>

primrec chain :: "ctor \<Rightarrow> ctor list" where
  "chain (Base n) = [Base n]"
| "chain (Extends n p) = Extends n p # chain p"

text \<open>
  A sequence of \<^verbatim>\<open>addOwnField(target, d)\<close> calls on one class, in order; the first call
  that throws ends the sequence, as the exception does.
\<close>

fun addOwnFields :: "state \<Rightarrow> ctor \<Rightarrow> IFieldMeta list \<Rightarrow> (error + unit) \<times> state" where
  "addOwnFields s target [] = (Inr (), s)"
| "addOwnFields s target (d # ds) =
     (case addOwnField s target d of
        (Inl e, s') \<Rightarrow> (Inl e, s')
      | (Inr u, s') \<Rightarrow> addOwnFields s' target ds)"

text \<open>
  The calls of the public interface that can change the state, and the state each leaves
  behind (whether it returns or throws). \<^verbatim>\<open>getFields\<close>, \<^verbatim>\<open>getOwnFields\<close>,
  \<^verbatim>\<open>isModel\<close> and \<^verbatim>\<open>isDataMapper\<close> only read.
\<close>

datatype call =
    AddOwnField ctor IFieldMeta
  | FieldDecorator string "TAnyFieldOptions option" ctor string
  | ApplyFields ctor
  | CollectModelInformation ctor
  | DefineModel ctor string
  | DefineDataMapper ctor
  | GetUnpackedOwnFields ctor
  | GetUnpackedFields ctor

fun exec :: "state \<Rightarrow> call \<Rightarrow> state" where
  "exec s (AddOwnField c d) = snd (addOwnField s c d)"
| "exec s (FieldDecorator t opts c name) = snd (Field t opts c name s)"
| "exec s (ApplyFields c) = snd (applyFields s c)"
| "exec s (CollectModelInformation c) = snd (collectModelInformation s c)"
| "exec s (DefineModel c coll) = defineModel s c coll"
| "exec s (DefineDataMapper c) = defineDataMapper s c"
| "exec s (GetUnpackedOwnFields c) = snd (getUnpackedOwnFields s c)"
| "exec s (GetUnpackedFields c) = snd (getUnpackedFields s c)"

definition run :: "state \<Rightarrow> call list \<Rightarrow> state" where
  "run s calls = foldl exec s calls"

section \<open>Example classes and declarations\<close>

definition classA :: ctor where "classA = Base ''A''"
definition classB :: ctor where "classB = Extends ''B'' classA"
definition classC :: ctor where "classC = Extends ''C'' classB"
definition User :: ctor where "User = Base ''User''"

text \<open>The descriptor that \<^verbatim>\<open>@Field()\<close> builds for a property of reflected type string.\<close>

definition plainField :: "string \<Rightarrow> IFieldMeta" where
  "plainField name =
     \<lparr>classPropertyName = name, dbPropertyName = name, defaultValue = JUndefined,
      isNullable = True, fieldType = ''string'', isIdentifier = False, isPrimaryRaw = None\<rparr>"

text \<open>The options \<^verbatim>\<open>{id: true}\<close>.\<close>

definition idOptions :: "TAnyFieldOptions option" where
  "idOptions =
     Some \<lparr>opt_type = None, opt_nullable = None, opt_name = None, opt_defaultValue = None,
           opt_id = Some True\<rparr>"

text \<open>A model class with one declared field, its primary key.\<close>

definition userState :: state where
  "userState = defineModel (snd (Field ''number'' idOptions User ''id'' initial)) User ''users''"

section \<open>Relations between the states before and after a call\<close>

text \<open>
  \<open>frame D s s'\<close>: from \<open>s\<close> to \<open>s'\<close> no prototype has changed, and the only metadata
  entries that differ are resolved-field caches of classes in \<open>D\<close> for which the getter
  found nothing in \<open>s\<close>.
\<close>

definition frame :: "ctor set \<Rightarrow> state \<Rightarrow> state \<Rightarrow> bool" where
  "frame D s s' \<longleftrightarrow>
     prototype s' = prototype s
     \<and> (\<forall>e pk k. metadata s' (e, pk, k) \<noteq> metadata s (e, pk, k)
           \<longrightarrow> k = UnpackedFields \<and> pk = None \<and> e \<in> D
               \<and> get s UnpackedFields e None = None)"

text \<open>
  \<open>runs_ok s\<close>: the resolution mapping has run at most once for each class, and where it
  has run the getter finds a cached list.
\<close>

definition runs_ok :: "state \<Rightarrow> bool" where
  "runs_ok s \<longleftrightarrow>
     (\<forall>e. unpackRuns s e = 0 \<or> (unpackRuns s e = 1 \<and> get s UnpackedFields e None \<noteq> None))"

text \<open>
  \<open>preserves s s'\<close>: every cached list the getter finds in \<open>s\<close> it finds unchanged in
  \<open>s'\<close>, every applied flag seen in \<open>s\<close> is seen in \<open>s'\<close>, and \<open>runs_ok\<close> carries over.
\<close>

definition preserves :: "state \<Rightarrow> state \<Rightarrow> bool" where
  "preserves s s' \<longleftrightarrow>
     (\<forall>e v. get s UnpackedFields e None = Some v \<longrightarrow> get s' UnpackedFields e None = Some v)
     \<and> (\<forall>e. get s AreFieldsApplied e None = Some (MBool True)
            \<longrightarrow> get s' AreFieldsApplied e None = Some (MBool True))
     \<and> (runs_ok s \<longrightarrow> runs_ok s')"

section \<open>The metadata store\<close>

lemma whileHasParentConstructor_fold:
  "whileHasParentConstructor c f acc = fold f (chain c) acc"
  by (induction c arbitrary: acc) simp_all

lemma metadata_set_meta [simp]:
  "metadata (set_meta k v c pk s) = (metadata s)((c, pk, k) \<mapsto> v)"
  by (simp add: set_meta_def Reflect_defineMetadata_def)

lemma prototype_set_meta [simp]: "prototype (set_meta k v c pk s) = prototype s"
  by (simp add: set_meta_def Reflect_defineMetadata_def)

lemma unpackRuns_set_meta [simp]: "unpackRuns (set_meta k v c pk s) = unpackRuns s"
  by (simp add: set_meta_def Reflect_defineMetadata_def)

lemma getMetadata_cong:
  "metadata s = metadata s' \<Longrightarrow> Reflect_getMetadata s k c pk = Reflect_getMetadata s' k c pk"
  by (induction c) (simp_all split: option.splits)

lemma getMetadata_set_self [simp]:
  "Reflect_getMetadata (set_meta k v c pk s) k c pk = Some v"
  by (cases c) simp_all

lemma getMetadata_set_other_key:
  "k' \<noteq> k \<or> pk' \<noteq> pk \<Longrightarrow>
   Reflect_getMetadata (set_meta k v c pk s) k' d pk' = Reflect_getMetadata s k' d pk'"
  by (induction d) (auto split: option.splits)

lemma chain_size: "d \<in> set (chain c) \<Longrightarrow> size d \<le> size c"
  by (induction c) auto

lemma self_in_chain [simp]: "c \<in> set (chain c)"
  by (cases c) simp_all

lemma not_in_parent_chain [simp]: "Extends n p \<notin> set (chain p)"
  using chain_size [of "Extends n p" p] by auto

lemma getMetadata_set_outside:
  "c \<notin> set (chain d) \<Longrightarrow>
   Reflect_getMetadata (set_meta k v c pk s) k' d pk' = Reflect_getMetadata s k' d pk'"
  by (induction d) (auto split: option.splits)

lemma getMetadata_set_cases:
  "Reflect_getMetadata (set_meta k v c pk s) k d pk = Some v \<or>
   Reflect_getMetadata (set_meta k v c pk s) k d pk = Reflect_getMetadata s k d pk"
  by (induction d) (auto split: option.splits)

lemma getMetadata_unpackRuns_update [simp]:
  "Reflect_getMetadata (s\<lparr>unpackRuns := r\<rparr>) k c pk = Reflect_getMetadata s k c pk"
  by (rule getMetadata_cong) simp

lemma getMetadata_prototype_update [simp]:
  "Reflect_getMetadata (s\<lparr>prototype := r\<rparr>) k c pk = Reflect_getMetadata s k c pk"
  by (rule getMetadata_cong) simp

lemma get_unpackRuns_update [simp]: "get (s\<lparr>unpackRuns := r\<rparr>) k c pk = get s k c pk"
  by (simp add: get_def)

lemma get_prototype_update [simp]: "get (s\<lparr>prototype := r\<rparr>) k c pk = get s k c pk"
  by (simp add: get_def)

lemma get_set_self: "get (set_meta k v c pk s) k c pk = (if truthy v then Some v else None)"
  by (simp add: get_def)

lemma get_set_other_key:
  "k' \<noteq> k \<or> pk' \<noteq> pk \<Longrightarrow> get (set_meta k v c pk s) k' d pk' = get s k' d pk'"
  by (simp add: get_def getMetadata_set_other_key)

lemma get_set_outside:
  "c \<notin> set (chain d) \<Longrightarrow> get (set_meta k v c pk s) k' d pk' = get s k' d pk'"
  by (simp add: get_def getMetadata_set_outside)

lemma get_set_miss_keeps:
  "get s k c pk = None \<Longrightarrow> get s k d pk = Some x \<Longrightarrow> get (set_meta k v c pk s) k d pk = Some x"
  by (induction d) (auto simp: get_def split: option.splits if_splits)

lemma get_set_same_keeps:
  "get s k d pk = Some v \<Longrightarrow> get (set_meta k v c pk s) k d pk = Some v"
  by (induction d) (auto simp: get_def split: option.splits if_splits)

lemma getOwnFields_cong:
  "(\<And>d. get s' Fields d None = get s Fields d None) \<Longrightarrow> getOwnFields s' c = getOwnFields s c"
  by (simp add: getOwnFields_def)

lemma get_inherited:
  "metadata s (Extends n p, pk, k) = None \<Longrightarrow> get s k (Extends n p) pk = get s k p pk"
  by (simp add: get_def)

section \<open>Evaluation on the example classes\<close>

lemmas eval_defs = classA_def classB_def classC_def User_def plainField_def idOptions_def
  Field_def addOwnField_def getFields_def getOwnFields_def get_def has_def
  Reflect_hasMetadata_def initial_def getUnpackedFields_def getUnpackedOwnFields_def
  unpackField_def applyFields_def Object_defineProperty_def collectModelInformation_def
  defineModel_def Let_def

text \<open>
  Claim C1 (the store reports a value for a class only if it was set on exactly that
  class; \<^verbatim>\<open>getOwnFields(C)\<close> never returns descriptors registered on an ancestor).
  The code does otherwise: \<^verbatim>\<open>get\<close> and \<^verbatim>\<open>has\<close> call \<^verbatim>\<open>Reflect.getMetadata\<close> and
  \<^verbatim>\<open>Reflect.hasMetadata\<close>, which fall back to the superclass (\<open>get_inherited\<close>). After
  one field has been registered on class A, and nothing on its subclass B,
  \<^verbatim>\<open>getOwnFields(B)\<close> returns A's descriptor and \<^verbatim>\<open>has\<close> reports field metadata for
  B, although B has no own entry.
\<close>

theorem getOwnFields_returns_inherited:
  "getOwnFields (snd (addOwnField initial classA (plainField ''a''))) classB = [plainField ''a'']
   \<and> has (snd (addOwnField initial classA (plainField ''a''))) Fields classB None
   \<and> metadata (snd (addOwnField initial classA (plainField ''a''))) (classB, None, Fields) = None"
  by (simp add: eval_defs)

text \<open>
  Claim C6 (for a chain A, B extends A, C extends B with disjoint fields,
  \<^verbatim>\<open>getUnpackedFields(C)\<close> is C's fields, then B's, then A's). With one field declared on
  each class the code returns six fields: the list stored for a subclass starts with the
  list inherited from its superclass, and the walk adds each ancestor's list again.
\<close>

theorem getUnpackedFields_three_levels:
  "map classPropertyName
     (fst (getUnpackedFields
        (run initial [AddOwnField classA (plainField ''a''),
                      AddOwnField classB (plainField ''b''),
                      AddOwnField classC (plainField ''c'')]) classC))
   = [''a'', ''b'', ''c'', ''a'', ''b'', ''a'']"
  by (simp add: run_def eval_defs)

section \<open>The field registry\<close>

lemma fold_append_concat: "fold (\<lambda>x acc. acc @ g x) xs acc = acc @ concat (map g xs)"
  by (induction xs arbitrary: acc) simp_all

lemma getFields_concat: "getFields s c = concat (map (getOwnFields s) (chain c))"
  by (simp add: getFields_def whileHasParentConstructor_fold fold_append_concat)

lemma chain_Cons: "chain c = c # tl (chain c)"
  by (cases c) simp_all

lemma getFields_split:
  "getFields s c = getOwnFields s c @ concat (map (getOwnFields s) (tl (chain c)))"
  by (subst getFields_concat, subst chain_Cons) simp

lemma tl_chain_size: "d \<in> set (tl (chain c)) \<Longrightarrow> size d < size c"
  by (cases c) (auto dest: chain_size)

lemma not_in_ancestor_chain: "d \<in> set (tl (chain c)) \<Longrightarrow> c \<notin> set (chain d)"
  using tl_chain_size [of d c] chain_size [of c d] by auto

lemma getOwnFields_set_self [simp]:
  "getOwnFields (set_meta Fields (MFields fs) c None s) c = fs"
  by (simp add: getOwnFields_def get_set_self)

lemma getOwnFields_set_ancestor:
  "d \<in> set (tl (chain c)) \<Longrightarrow> getOwnFields (set_meta k v c pk s) d = getOwnFields s d"
  by (simp add: getOwnFields_def get_set_outside not_in_ancestor_chain)

lemma getFields_set_self:
  "getFields (set_meta Fields (MFields fs) c None s) c
     = fs @ concat (map (getOwnFields s) (tl (chain c)))"
  by (simp add: getFields_split [of _ c] getOwnFields_set_ancestor cong: map_cong)

lemma checkFields_not_primary:
  "isPrimaryRaw d \<noteq> Some True \<Longrightarrow>
   checkFields c d fs =
     (case find (\<lambda>f. classPropertyName f = classPropertyName d) fs of
        None \<Rightarrow> None
      | Some f \<Rightarrow> Some (PropertyAlreadyDefinedError f d))"
  by (induction fs) simp_all

lemma addOwnField_fresh:
  assumes "isPrimaryRaw d \<noteq> Some True"
    and "classPropertyName d \<notin> classPropertyName ` set (getFields s c)"
  shows "fst (addOwnField s c d) = Inr ()"
    and "getOwnFields (snd (addOwnField s c d)) c = getOwnFields s c @ [d]"
    and "getFields (snd (addOwnField s c d)) c
           = getOwnFields s c @ [d] @ concat (map (getOwnFields s) (tl (chain c)))"
proof -
  have "find (\<lambda>f. classPropertyName f = classPropertyName d) (getFields s c) = None"
    using assms(2) by (auto simp: find_None_iff image_iff)
  then have chk: "checkFields c d (getFields s c) = None"
    using assms(1) by (simp add: checkFields_not_primary)
  then show "fst (addOwnField s c d) = Inr ()" by (simp add: addOwnField_def)
  from chk show "getOwnFields (snd (addOwnField s c d)) c = getOwnFields s c @ [d]"
    by (simp add: addOwnField_def)
  from chk show "getFields (snd (addOwnField s c d)) c
           = getOwnFields s c @ [d] @ concat (map (getOwnFields s) (tl (chain c)))"
    by (simp add: addOwnField_def getFields_set_self)
qed

lemma addOwnField_clash:
  assumes "isPrimaryRaw d \<noteq> Some True"
    and "classPropertyName d \<in> classPropertyName ` set (getFields s c)"
  shows "\<exists>f. f \<in> set (getFields s c) \<and> classPropertyName f = classPropertyName d
             \<and> addOwnField s c d = (Inl (PropertyAlreadyDefinedError f d), s)"
proof -
  from assms(2) obtain f where
    f: "find (\<lambda>f. classPropertyName f = classPropertyName d) (getFields s c) = Some f"
    by (cases "find (\<lambda>f. classPropertyName f = classPropertyName d) (getFields s c)")
      (auto simp: find_None_iff image_iff)
  then have "f \<in> set (getFields s c) \<and> classPropertyName f = classPropertyName d"
    by (auto simp: find_Some_iff)
  moreover have "addOwnField s c d = (Inl (PropertyAlreadyDefinedError f d), s)"
    using f assms(1) by (simp add: addOwnField_def checkFields_not_primary)
  ultimately show ?thesis by blast
qed

lemma addOwnFields_Cons_ok:
  "fst (addOwnField s c d) = Inr () \<Longrightarrow>
   addOwnFields s c (d # ds) = addOwnFields (snd (addOwnField s c d)) c ds"
  by (cases "addOwnField s c d") (auto split: sum.splits)

lemma addOwnFields_Cons_error:
  "addOwnField s c d = (Inl e, s') \<Longrightarrow> addOwnFields s c (d # ds) = (Inl e, s')"
  by simp

text \<open>
  Claim C2, as the code has it. The check of \<^verbatim>\<open>addOwnField\<close> consults
  \<^verbatim>\<open>getFields(C)\<close>, the fields seen from C and from every ancestor. For a sequence of
  descriptors none of which has \<^verbatim>\<open>isPrimary\<close> set: if their names are distinct and none
  is the name of a field in \<^verbatim>\<open>getFields(C)\<close>, every call succeeds and
  \<^verbatim>\<open>getOwnFields(C)\<close> afterwards is its value before the calls followed by the sequence
  in call order; otherwise the first call whose name is already taken (by a field of
  \<^verbatim>\<open>getFields(C)\<close> or by an earlier descriptor of the sequence) fails with
  PropertyAlreadyDefined carrying a field of that name and the descriptor of the call, and
  the calls before it have been appended.
\<close>

theorem addOwnFields_sequence:
  assumes "\<forall>d\<in>set ds. isPrimaryRaw d \<noteq> Some True"
  shows "if distinct (map classPropertyName ds)
            \<and> classPropertyName ` set ds \<inter> classPropertyName ` set (getFields s c) = {}
         then fst (addOwnFields s c ds) = Inr ()
              \<and> getOwnFields (snd (addOwnFields s c ds)) c = getOwnFields s c @ ds
         else (\<exists>j f. j < length ds
                \<and> (f \<in> set (getFields s c) \<or> f \<in> set (take j ds))
                \<and> classPropertyName f = classPropertyName (ds ! j)
                \<and> fst (addOwnFields s c ds) = Inl (PropertyAlreadyDefinedError f (ds ! j))
                \<and> getOwnFields (snd (addOwnFields s c ds)) c = getOwnFields s c @ take j ds)"
  using assms
proof (induction ds arbitrary: s)
  case Nil
  show ?case by simp
next
  case (Cons d ds)
  have np: "isPrimaryRaw d \<noteq> Some True" using Cons.prems by simp
  have nps: "\<forall>d\<in>set ds. isPrimaryRaw d \<noteq> Some True" using Cons.prems by simp
  show ?case
  proof (cases "classPropertyName d \<in> classPropertyName ` set (getFields s c)")
    case True
    from addOwnField_clash [OF np True] obtain f where
      f: "f \<in> set (getFields s c)" "classPropertyName f = classPropertyName d"
        "addOwnField s c d = (Inl (PropertyAlreadyDefinedError f d), s)"
      by blast
    have r: "addOwnFields s c (d # ds) = (Inl (PropertyAlreadyDefinedError f d), s)"
      using f(3) by (rule addOwnFields_Cons_error)
    have ex: "\<exists>j g. j < length (d # ds)
            \<and> (g \<in> set (getFields s c) \<or> g \<in> set (take j (d # ds)))
            \<and> classPropertyName g = classPropertyName ((d # ds) ! j)
            \<and> fst (addOwnFields s c (d # ds)) = Inl (PropertyAlreadyDefinedError g ((d # ds) ! j))
            \<and> getOwnFields (snd (addOwnFields s c (d # ds))) c
                = getOwnFields s c @ take j (d # ds)"
      by (rule exI [of _ 0], rule exI [of _ f]) (simp add: r f del: addOwnFields.simps)
    have nc: "\<not> (distinct (map classPropertyName (d # ds))
                 \<and> classPropertyName ` set (d # ds) \<inter> classPropertyName ` set (getFields s c) = {})"
      using True by auto
    show ?thesis by (subst if_not_P [OF nc]) (rule ex)
  next
    case False
    let ?s1 = "snd (addOwnField s c d)"
    note fresh = addOwnField_fresh [OF np False]
    have r: "addOwnFields s c (d # ds) = addOwnFields ?s1 c ds"
      using fresh(1) by (rule addOwnFields_Cons_ok)
    have own1: "getOwnFields ?s1 c = getOwnFields s c @ [d]" by (rule fresh(2))
    have set1: "set (getFields ?s1 c) = insert d (set (getFields s c))"
      by (simp add: fresh(3) getFields_split [of s c])
    have cond: "(distinct (map classPropertyName (d # ds))
                  \<and> classPropertyName ` set (d # ds) \<inter> classPropertyName ` set (getFields s c) = {})
              \<longleftrightarrow> (distinct (map classPropertyName ds)
                  \<and> classPropertyName ` set ds \<inter> classPropertyName ` set (getFields ?s1 c) = {})"
      using False by (auto simp: set1)
    show ?thesis
    proof (cases "distinct (map classPropertyName ds)
                  \<and> classPropertyName ` set ds \<inter> classPropertyName ` set (getFields ?s1 c) = {}")
      case True
      from Cons.IH [OF nps, of ?s1]
      have "fst (addOwnFields ?s1 c ds) = Inr ()
            \<and> getOwnFields (snd (addOwnFields ?s1 c ds)) c = getOwnFields ?s1 c @ ds"
        by (subst (asm) if_P [OF True])
      then have ok: "fst (addOwnFields s c (d # ds)) = Inr ()
            \<and> getOwnFields (snd (addOwnFields s c (d # ds))) c = getOwnFields s c @ d # ds"
        by (simp add: r own1 del: addOwnFields.simps)
      have c: "distinct (map classPropertyName (d # ds))
                 \<and> classPropertyName ` set (d # ds) \<inter> classPropertyName ` set (getFields s c) = {}"
        using True cond by blast
      show ?thesis by (subst if_P [OF c]) (rule ok)
    next
      case no: False
      from Cons.IH [OF nps, of ?s1]
      have "\<exists>j f. j < length ds
                \<and> (f \<in> set (getFields ?s1 c) \<or> f \<in> set (take j ds))
                \<and> classPropertyName f = classPropertyName (ds ! j)
                \<and> fst (addOwnFields ?s1 c ds) = Inl (PropertyAlreadyDefinedError f (ds ! j))
                \<and> getOwnFields (snd (addOwnFields ?s1 c ds)) c = getOwnFields ?s1 c @ take j ds"
        by (subst (asm) if_not_P [OF no])
      then obtain j f where
        jf: "j < length ds" "f \<in> set (getFields ?s1 c) \<or> f \<in> set (take j ds)"
          "classPropertyName f = classPropertyName (ds ! j)"
          "fst (addOwnFields ?s1 c ds) = Inl (PropertyAlreadyDefinedError f (ds ! j))"
          "getOwnFields (snd (addOwnFields ?s1 c ds)) c = getOwnFields ?s1 c @ take j ds"
        by blast
      have mem: "f \<in> set (getFields s c) \<or> f \<in> set (take (Suc j) (d # ds))"
        using jf(2) by (auto simp: set1)
      have ex: "\<exists>j g. j < length (d # ds)
            \<and> (g \<in> set (getFields s c) \<or> g \<in> set (take j (d # ds)))
            \<and> classPropertyName g = classPropertyName ((d # ds) ! j)
            \<and> fst (addOwnFields s c (d # ds)) = Inl (PropertyAlreadyDefinedError g ((d # ds) ! j))
            \<and> getOwnFields (snd (addOwnFields s c (d # ds))) c
                = getOwnFields s c @ take j (d # ds)"
        by (rule exI [of _ "Suc j"], rule exI [of _ f])
          (use jf(1,3,4,5) mem in \<open>simp add: r own1 del: addOwnFields.simps\<close>)
      have nc: "\<not> (distinct (map classPropertyName (d # ds))
                 \<and> classPropertyName ` set (d # ds) \<inter> classPropertyName ` set (getFields s c) = {})"
        using no cond by blast
      show ?thesis by (subst if_not_P [OF nc]) (rule ex)
    qed
  qed
qed

text \<open>Claim C2, the amended statement at two fields declared on a class without ancestors.\<close>

theorem addOwnFields_sequence_witness:
  "isPrimaryRaw (plainField ''a'') \<noteq> Some True \<and> isPrimaryRaw (plainField ''b'') \<noteq> Some True
   \<and> fst (addOwnFields initial User [plainField ''a'', plainField ''b'']) = Inr ()
   \<and> getOwnFields (snd (addOwnFields initial User [plainField ''a'', plainField ''b''])) User
       = [plainField ''a'', plainField ''b'']"
  using addOwnFields_sequence [of "[plainField ''a'', plainField ''b'']" initial User]
  by (simp add: eval_defs)

text \<open>
  Claim C2 as stated (the check consults only C's own list, so a sequence without a
  repeated name succeeds) fails: with a field \<^verbatim>\<open>x\<close> registered on A, the single call
  that registers a field \<^verbatim>\<open>x\<close> on B extends A is rejected, although B has no own field
  list.
\<close>

theorem inherited_name_rejected:
  "metadata (snd (addOwnField initial classA (plainField ''x''))) (classB, None, Fields) = None
   \<and> fst (addOwnFields (snd (addOwnField initial classA (plainField ''x''))) classB
           [(plainField ''x'')\<lparr>fieldType := ''number''\<rparr>])
       = Inl (PropertyAlreadyDefinedError (plainField ''x'')
               ((plainField ''x'')\<lparr>fieldType := ''number''\<rparr>))"
  by (simp add: eval_defs)

lemma Field_no_primary_key_error:
  "fst (Field t opts c name s) \<noteq> Inl (PrimaryKeyAlreadyDefinedError c' f g)"
  by (cases opts) (simp_all add: Field_def addOwnField_def checkFields_not_primary
      split: option.splits)

text \<open>
  Claim C3 (a second primary-key descriptor on one class is rejected with
  PrimaryKeyAlreadyDefined). \<^verbatim>\<open>addOwnField\<close> tests the property \<^verbatim>\<open>isPrimary\<close> of the raw
  descriptors, while the \<^verbatim>\<open>Field\<close> decorator marks the primary key in the property
  \<^verbatim>\<open>isIdentifier\<close>, so that no declaration made through \<^verbatim>\<open>Field\<close> ever gets this error
  (\<open>Field_no_primary_key_error\<close>): two fields declared with \<^verbatim>\<open>{id: true}\<close> on one class
  are both accepted.
\<close>

theorem second_identifier_field_accepted:
  "fst (Field ''number'' idOptions User ''b'' (snd (Field ''number'' idOptions User ''a'' initial)))
     = Inr ()
   \<and> map isIdentifier
        (getOwnFields
           (snd (Field ''number'' idOptions User ''b''
                   (snd (Field ''number'' idOptions User ''a'' initial)))) User)
     = [True, True]"
  by (simp add: eval_defs)

section \<open>The field resolver\<close>

lemma getUnpackedOwnFields_hit:
  "get s UnpackedFields d None = Some v \<Longrightarrow> getUnpackedOwnFields s d = (asUnpacked v, s)"
  by (simp add: getUnpackedOwnFields_def)

lemma getUnpackedOwnFields_miss:
  "get s UnpackedFields d None = None \<Longrightarrow>
   getUnpackedOwnFields s d =
     (map unpackField (getOwnFields s d),
      set_meta UnpackedFields (MUnpacked (map unpackField (getOwnFields s d))) d None
        (s\<lparr>unpackRuns := (unpackRuns s)(d := Suc (unpackRuns s d))\<rparr>))"
  by (simp add: getUnpackedOwnFields_def Let_def)

lemma getUnpackedOwnFields_cached:
  "\<exists>v. get (snd (getUnpackedOwnFields s d)) UnpackedFields d None = Some v
       \<and> asUnpacked v = fst (getUnpackedOwnFields s d)"
proof (cases "get s UnpackedFields d None")
  case None
  then show ?thesis by (simp add: getUnpackedOwnFields_miss get_set_self)
next
  case (Some v)
  then show ?thesis by (simp add: getUnpackedOwnFields_hit)
qed

subsection \<open>What a call leaves unchanged\<close>

lemma frame_refl [simp]: "frame D s s"
  by (simp add: frame_def)

lemma preserves_refl [simp]: "preserves s s"
  by (simp add: preserves_def)

lemma preserves_trans: "preserves s s' \<Longrightarrow> preserves s' s'' \<Longrightarrow> preserves s s''"
  unfolding preserves_def by blast

lemma preserves_cacheD:
  "preserves s s' \<Longrightarrow> get s UnpackedFields e None = Some v \<Longrightarrow>
   get s' UnpackedFields e None = Some v"
  unfolding preserves_def by blast

lemma preserves_appliedD:
  "preserves s s' \<Longrightarrow> get s AreFieldsApplied e None = Some (MBool True) \<Longrightarrow>
   get s' AreFieldsApplied e None = Some (MBool True)"
  unfolding preserves_def by blast

lemma preserves_runsD: "preserves s s' \<Longrightarrow> runs_ok s \<Longrightarrow> runs_ok s'"
  unfolding preserves_def by blast

lemma preserves_set_other:
  "k \<noteq> UnpackedFields \<Longrightarrow> k \<noteq> AreFieldsApplied \<Longrightarrow> preserves s (set_meta k v c pk s)"
  by (simp add: preserves_def runs_ok_def get_set_other_key)

lemma preserves_set_applied: "preserves s (set_meta AreFieldsApplied (MBool True) c None s)"
  by (simp add: preserves_def runs_ok_def get_set_other_key get_set_same_keeps)

lemma preserves_prototype_update: "preserves s (s\<lparr>prototype := x\<rparr>)"
  by (simp add: preserves_def runs_ok_def)

lemma preserves_getUnpackedOwnFields: "preserves s (snd (getUnpackedOwnFields s d))"
proof (cases "get s UnpackedFields d None")
  case None
  have cache: "get (snd (getUnpackedOwnFields s d)) UnpackedFields e None = Some v"
    if "get s UnpackedFields e None = Some v" for e v
    using None that by (simp add: getUnpackedOwnFields_miss get_set_miss_keeps)
  have applied: "get (snd (getUnpackedOwnFields s d)) AreFieldsApplied e None
                   = get s AreFieldsApplied e None" for e
    using None by (simp add: getUnpackedOwnFields_miss get_set_other_key)
  have runs: "runs_ok (snd (getUnpackedOwnFields s d))" if ok: "runs_ok s"
    unfolding runs_ok_def
  proof
    fix e
    let ?s' = "snd (getUnpackedOwnFields s d)"
    show "unpackRuns ?s' e = 0 \<or> (unpackRuns ?s' e = 1 \<and> get ?s' UnpackedFields e None \<noteq> None)"
    proof (cases "e = d")
      case True
      from ok None have "unpackRuns s d = 0" unfolding runs_ok_def by auto
      with True None show ?thesis by (simp add: getUnpackedOwnFields_miss get_set_self)
    next
      case False
      from ok have "unpackRuns s e = 0 \<or> (unpackRuns s e = 1 \<and> get s UnpackedFields e None \<noteq> None)"
        unfolding runs_ok_def by blast
      then show ?thesis
      proof
        assume "unpackRuns s e = 0"
        with False None show ?thesis by (simp add: getUnpackedOwnFields_miss)
      next
        assume h: "unpackRuns s e = 1 \<and> get s UnpackedFields e None \<noteq> None"
        then obtain v where "get s UnpackedFields e None = Some v" by auto
        then have "get ?s' UnpackedFields e None = Some v" by (rule cache)
        moreover have "unpackRuns ?s' e = 1"
          using h False None by (simp add: getUnpackedOwnFields_miss)
        ultimately show ?thesis by simp
      qed
    qed
  qed
  show ?thesis unfolding preserves_def using cache applied runs by simp
next
  case (Some v)
  then show ?thesis by (simp add: getUnpackedOwnFields_hit)
qed

lemma frame_getUnpackedOwnFields: "frame {d} s (snd (getUnpackedOwnFields s d))"
proof (cases "get s UnpackedFields d None")
  case None
  then show ?thesis by (auto simp: getUnpackedOwnFields_miss frame_def)
next
  case (Some v)
  then show ?thesis by (simp add: getUnpackedOwnFields_hit)
qed

lemma getMetadata_cong_key:
  "(\<And>e. metadata s' (e, pk, k) = metadata s (e, pk, k)) \<Longrightarrow>
   Reflect_getMetadata s' k c pk = Reflect_getMetadata s k c pk"
  by (induction c) (simp_all split: option.splits)

lemma frame_trans:
  "frame D s s' \<Longrightarrow> frame E s' s'' \<Longrightarrow> preserves s s' \<Longrightarrow> frame (D \<union> E) s s''"
proof -
  assume a: "frame D s s'" and b: "frame E s' s''" and p: "preserves s s'"
  have "k = UnpackedFields \<and> pk = None \<and> e \<in> D \<union> E \<and> get s UnpackedFields e None = None"
    if neq: "metadata s'' (e, pk, k) \<noteq> metadata s (e, pk, k)" for e pk k
  proof (cases "metadata s' (e, pk, k) = metadata s (e, pk, k)")
    case True
    with neq have "metadata s'' (e, pk, k) \<noteq> metadata s' (e, pk, k)" by simp
    with b have *: "k = UnpackedFields \<and> pk = None \<and> e \<in> E \<and> get s' UnpackedFields e None = None"
      unfolding frame_def by blast
    have "get s UnpackedFields e None = None"
    proof (rule ccontr)
      assume "get s UnpackedFields e None \<noteq> None"
      then obtain v where "get s UnpackedFields e None = Some v" by auto
      with p have "get s' UnpackedFields e None = Some v" by (rule preserves_cacheD)
      with * show False by simp
    qed
    with * show ?thesis by simp
  next
    case False
    with a show ?thesis unfolding frame_def by blast
  qed
  moreover have "prototype s'' = prototype s" using a b unfolding frame_def by simp
  ultimately show ?thesis unfolding frame_def by blast
qed

lemma getUnpackedFields_fold:
  "getUnpackedFields s c =
     fold (\<lambda>ctr (fs, s'). case getUnpackedOwnFields s' ctr of (us, s'') \<Rightarrow> (fs @ us, s''))
       (chain c) ([], s)"
  by (simp add: getUnpackedFields_def whileHasParentConstructor_fold)

lemma walk_first:
  "\<exists>s'. fold (\<lambda>ctr (fs, s'). case getUnpackedOwnFields s' ctr of (us, s'') \<Rightarrow> (fs @ us, s''))
           ds (acc, s)
         = (acc @ concat (map (\<lambda>d. asUnpacked (the (get s' UnpackedFields d None))) ds), s')
       \<and> preserves s s' \<and> frame (set ds) s s'
       \<and> (\<forall>d\<in>set ds. get s' UnpackedFields d None \<noteq> None)"
proof (induction ds arbitrary: acc s)
  case Nil
  show ?case by simp
next
  case (Cons d ds)
  obtain us s1 where g: "getUnpackedOwnFields s d = (us, s1)"
    by (cases "getUnpackedOwnFields s d")
  from getUnpackedOwnFields_cached [of s d] g obtain v
    where v: "get s1 UnpackedFields d None = Some v" "asUnpacked v = us" by auto
  have p1: "preserves s s1" using preserves_getUnpackedOwnFields [of s d] g by simp
  have f1: "frame {d} s s1" using frame_getUnpackedOwnFields [of d s] g by simp
  from Cons.IH [of "acc @ us" s1] obtain s' where
    r: "fold (\<lambda>ctr (fs, s'). case getUnpackedOwnFields s' ctr of (us, s'') \<Rightarrow> (fs @ us, s''))
          ds (acc @ us, s1)
        = ((acc @ us) @ concat (map (\<lambda>d. asUnpacked (the (get s' UnpackedFields d None))) ds), s')"
    and p2: "preserves s1 s'" and f2: "frame (set ds) s1 s'"
    and h: "\<forall>d\<in>set ds. get s' UnpackedFields d None \<noteq> None"
    by blast
  have vd: "get s' UnpackedFields d None = Some v" using p2 v(1) by (rule preserves_cacheD)
  have "fold (\<lambda>ctr (fs, s'). case getUnpackedOwnFields s' ctr of (us, s'') \<Rightarrow> (fs @ us, s''))
          (d # ds) (acc, s)
        = (acc @ concat (map (\<lambda>d. asUnpacked (the (get s' UnpackedFields d None))) (d # ds)), s')"
    using g r vd v(2) by simp
  moreover have "preserves s s'" using p1 p2 by (rule preserves_trans)
  moreover have "frame (set (d # ds)) s s'" using frame_trans [OF f1 f2 p1] by simp
  moreover have "\<forall>e\<in>set (d # ds). get s' UnpackedFields e None \<noteq> None" using h vd by simp
  ultimately show ?case by blast
qed

lemma walk_cached:
  "\<forall>d\<in>set ds. get s UnpackedFields d None \<noteq> None \<Longrightarrow>
   fold (\<lambda>ctr (fs, s'). case getUnpackedOwnFields s' ctr of (us, s'') \<Rightarrow> (fs @ us, s''))
     ds (acc, s)
   = (acc @ concat (map (\<lambda>d. asUnpacked (the (get s UnpackedFields d None))) ds), s)"
proof (induction ds arbitrary: acc)
  case Nil
  show ?case by simp
next
  case (Cons d ds)
  from Cons.prems obtain v where v: "get s UnpackedFields d None = Some v" by auto
  then have "getUnpackedOwnFields s d = (asUnpacked v, s)" by (rule getUnpackedOwnFields_hit)
  moreover have "\<forall>d\<in>set ds. get s UnpackedFields d None \<noteq> None" using Cons.prems by simp
  ultimately show ?case using Cons.IH [of "acc @ asUnpacked v"] v by simp
qed

lemma getUnpackedFields_first:
  "\<exists>s'. getUnpackedFields s c
           = (concat (map (\<lambda>d. asUnpacked (the (get s' UnpackedFields d None))) (chain c)), s')
       \<and> preserves s s' \<and> frame (set (chain c)) s s'
       \<and> (\<forall>d\<in>set (chain c). get s' UnpackedFields d None \<noteq> None)"
  using walk_first [of "chain c" "[]" s] by (simp add: getUnpackedFields_fold)

lemma preserves_getUnpackedFields: "preserves s (snd (getUnpackedFields s c))"
  using getUnpackedFields_first [of s c] by auto

lemma frame_getUnpackedFields: "frame (set (chain c)) s (snd (getUnpackedFields s c))"
  using getUnpackedFields_first [of s c] by auto

lemma getUnpackedFields_later:
  assumes "preserves (snd (getUnpackedFields s c)) s2"
  shows "getUnpackedFields s2 c = (fst (getUnpackedFields s c), s2)"
proof -
  from getUnpackedFields_first [of s c] obtain s' where
    r: "getUnpackedFields s c
          = (concat (map (\<lambda>d. asUnpacked (the (get s' UnpackedFields d None))) (chain c)), s')"
    and h: "\<forall>d\<in>set (chain c). get s' UnpackedFields d None \<noteq> None"
    by blast
  from r assms have p: "preserves s' s2" by simp
  have same: "get s2 UnpackedFields d None = get s' UnpackedFields d None"
    if "d \<in> set (chain c)" for d
  proof -
    from h that obtain v where "get s' UnpackedFields d None = Some v" by auto
    with p show ?thesis by (simp add: preserves_cacheD)
  qed
  then have h2: "\<forall>d\<in>set (chain c). get s2 UnpackedFields d None \<noteq> None" using h by simp
  have "getUnpackedFields s2 c
          = (concat (map (\<lambda>d. asUnpacked (the (get s2 UnpackedFields d None))) (chain c)), s2)"
    using walk_cached [OF h2, of "[]"] by (simp add: getUnpackedFields_fold)
  also have "map (\<lambda>d. asUnpacked (the (get s2 UnpackedFields d None))) (chain c)
             = map (\<lambda>d. asUnpacked (the (get s' UnpackedFields d None))) (chain c)"
    using same by simp
  finally show ?thesis using r by simp
qed

lemma getUnpackedOwnFields_later:
  assumes "preserves (snd (getUnpackedOwnFields s c)) s2"
  shows "getUnpackedOwnFields s2 c = (fst (getUnpackedOwnFields s c), s2)"
proof -
  from getUnpackedOwnFields_cached [of s c] obtain v
    where v: "get (snd (getUnpackedOwnFields s c)) UnpackedFields c None = Some v"
      "asUnpacked v = fst (getUnpackedOwnFields s c)" by blast
  from assms v(1) have "get s2 UnpackedFields c None = Some v" by (rule preserves_cacheD)
  then show ?thesis using v(2) by (simp add: getUnpackedOwnFields_hit)
qed

section \<open>The accessor installer\<close>

lemma defineAccessors_throws:
  "fs \<noteq> [] \<Longrightarrow> defineAccessors proto fs = (Some TypeError, proto)"
  by (cases fs) (simp_all add: Object_defineProperty_def)

lemma applyFields_throws_in_general:
  assumes "get s AreFieldsApplied c None \<noteq> Some (MBool True)"
    and "fst (getUnpackedFields s c) \<noteq> []"
  shows "applyFields s c = (Inl TypeError, snd (getUnpackedFields s c))"
proof -
  obtain fs s1 where g: "getUnpackedFields s c = (fs, s1)" by (cases "getUnpackedFields s c")
  with assms(2) have "defineAccessors (prototype s1 c) fs = (Some TypeError, prototype s1 c)"
    by (simp add: defineAccessors_throws)
  with assms(1) g show ?thesis by (simp add: applyFields_def)
qed

text \<open>
  Claim C4 (the first \<^verbatim>\<open>applyFields(C)\<close> of a class with a resolved field succeeds and
  installs an accessor per field). The descriptor passed to \<^verbatim>\<open>Object.defineProperty\<close>
  has \<^verbatim>\<open>get\<close> and \<^verbatim>\<open>set\<close> together with \<^verbatim>\<open>writable\<close>, which the language rejects
  (\<open>applyFields_throws_in_general\<close>): for a class with one declared field the call throws
  a TypeError, no property is defined and the applied flag stays unset.
\<close>

theorem applyFields_throws:
  "fst (applyFields (snd (Field ''number'' idOptions User ''id'' initial)) User) = Inl TypeError
   \<and> prototype (snd (applyFields (snd (Field ''number'' idOptions User ''id'' initial)) User))
        User ''id'' = None
   \<and> get (snd (applyFields (snd (Field ''number'' idOptions User ''id'' initial)) User))
        AreFieldsApplied User None = None"
  by (simp add: eval_defs)

section \<open>Sequences of calls of the interface\<close>

lemma preserves_addOwnField: "preserves s (snd (addOwnField s c d))"
  by (simp add: addOwnField_def preserves_set_other split: option.splits)

lemma preserves_Field: "preserves s (snd (Field t opts c name s))"
  by (simp add: Field_def preserves_addOwnField split: option.splits)

lemma preserves_defineModel: "preserves s (defineModel s c coll)"
  unfolding defineModel_def
  by (rule preserves_trans [OF preserves_set_other preserves_set_other]) simp_all

lemma preserves_defineDataMapper: "preserves s (defineDataMapper s c)"
  by (simp add: defineDataMapper_def preserves_set_other)

lemma preserves_collectModelInformation: "preserves s (snd (collectModelInformation s c))"
proof -
  have "snd (collectModelInformation s c) = s
        \<or> snd (collectModelInformation s c) = snd (getUnpackedFields s c)"
    by (simp add: collectModelInformation_def split: option.splits prod.splits sum.splits)
  then show ?thesis using preserves_getUnpackedFields [of s c] by auto
qed

lemma preserves_applyFields: "preserves s (snd (applyFields s c))"
proof (cases "get s AreFieldsApplied c None = Some (MBool True)")
  case True
  then show ?thesis by (simp add: applyFields_def)
next
  case False
  obtain fs s1 where g: "getUnpackedFields s c = (fs, s1)" by (cases "getUnpackedFields s c")
  obtain e proto' where d: "defineAccessors (prototype s1 c) fs = (e, proto')"
    by (cases "defineAccessors (prototype s1 c) fs")
  let ?s2 = "s1\<lparr>prototype := (prototype s1)(c := proto')\<rparr>"
  have p1: "preserves s s1" using preserves_getUnpackedFields [of s c] g by simp
  have p2: "preserves s1 ?s2" by (rule preserves_prototype_update)
  have p3: "preserves ?s2 (set_meta AreFieldsApplied (MBool True) c None ?s2)"
    by (rule preserves_set_applied)
  have "snd (applyFields s c) = ?s2
        \<or> snd (applyFields s c) = set_meta AreFieldsApplied (MBool True) c None ?s2"
    using False g d by (simp add: applyFields_def split: option.splits)
  then show ?thesis using p1 p2 p3 by (auto intro: preserves_trans)
qed

lemma preserves_exec: "preserves s (exec s call)"
  by (cases call)
    (simp_all add: preserves_addOwnField preserves_Field preserves_applyFields
      preserves_collectModelInformation preserves_defineModel preserves_defineDataMapper
      preserves_getUnpackedOwnFields preserves_getUnpackedFields)

lemma preserves_run: "preserves s (run s calls)"
proof (induction calls arbitrary: s)
  case Nil
  show ?case by (simp add: run_def)
next
  case (Cons call calls)
  have "preserves s (exec s call)" by (rule preserves_exec)
  moreover have "preserves (exec s call) (run (exec s call) calls)" by (rule Cons.IH)
  ultimately show ?case using preserves_trans by (simp add: run_def)
qed

lemma runs_ok_initial: "runs_ok initial"
  by (simp add: runs_ok_def initial_def)

lemma prototype_getUnpackedOwnFields [simp]:
  "prototype (snd (getUnpackedOwnFields s d)) = prototype s"
  using frame_getUnpackedOwnFields [of d s] by (simp add: frame_def)

lemma prototype_getUnpackedFields [simp]:
  "prototype (snd (getUnpackedFields s c)) = prototype s"
  using frame_getUnpackedFields [of c s] by (simp add: frame_def)

lemma prototype_addOwnField [simp]: "prototype (snd (addOwnField s c d)) = prototype s"
  by (simp add: addOwnField_def split: option.splits)

lemma prototype_Field [simp]: "prototype (snd (Field t opts c name s)) = prototype s"
  by (simp add: Field_def split: option.splits)

lemma prototype_collectModelInformation [simp]:
  "prototype (snd (collectModelInformation s c)) = prototype s"
proof -
  have "snd (collectModelInformation s c) = s
        \<or> snd (collectModelInformation s c) = snd (getUnpackedFields s c)"
    by (simp add: collectModelInformation_def split: option.splits prod.splits sum.splits)
  then show ?thesis by auto
qed

lemma defineAccessors_unchanged: "snd (defineAccessors proto fs) = proto"
  by (cases fs) (simp_all add: Object_defineProperty_def)

lemma prototype_applyFields [simp]: "prototype (snd (applyFields s c)) = prototype s"
proof (cases "get s AreFieldsApplied c None = Some (MBool True)")
  case True
  then show ?thesis by (simp add: applyFields_def)
next
  case False
  obtain fs s1 where g: "getUnpackedFields s c = (fs, s1)" by (cases "getUnpackedFields s c")
  obtain e proto' where d: "defineAccessors (prototype s1 c) fs = (e, proto')"
    by (cases "defineAccessors (prototype s1 c) fs")
  have p1: "prototype s1 = prototype s" using prototype_getUnpackedFields [of s c] g by simp
  have "proto' = prototype s1 c" using defineAccessors_unchanged [of "prototype s1 c" fs] d by simp
  then have "(prototype s1)(c := proto') = prototype s1" by simp
  with False g d p1 show ?thesis by (cases e) (simp_all add: applyFields_def)
qed

lemma prototype_exec: "prototype (exec s call) = prototype s"
  by (cases call) (simp_all add: defineModel_def defineDataMapper_def)

lemma prototype_run: "prototype (run s calls) = prototype s"
proof (induction calls arbitrary: s)
  case Nil
  show ?case by (simp add: run_def)
next
  case (Cons call calls)
  have "prototype (run (exec s call) calls) = prototype (exec s call)" by (rule Cons.IH)
  then show ?case by (simp add: run_def prototype_exec)
qed

lemma applyFields_throws_again:
  assumes "get s AreFieldsApplied c None \<noteq> Some (MBool True)"
    and "fst (getUnpackedFields s c) \<noteq> []"
  shows "applyFields (snd (applyFields s c)) c = (Inl TypeError, snd (applyFields s c))"
proof -
  let ?s1 = "snd (getUnpackedFields s c)"
  have first: "applyFields s c = (Inl TypeError, ?s1)"
    using assms by (rule applyFields_throws_in_general)
  have fr: "frame (set (chain c)) s ?s1" by (rule frame_getUnpackedFields)
  have "metadata ?s1 (e, None, AreFieldsApplied) = metadata s (e, None, AreFieldsApplied)" for e
    using fr unfolding frame_def by blast
  then have "Reflect_getMetadata ?s1 AreFieldsApplied c None
               = Reflect_getMetadata s AreFieldsApplied c None"
    by (rule getMetadata_cong_key)
  then have flag: "get ?s1 AreFieldsApplied c None \<noteq> Some (MBool True)"
    using assms(1) by (simp add: get_def)
  have later: "getUnpackedFields ?s1 c = (fst (getUnpackedFields s c), ?s1)"
    by (rule getUnpackedFields_later) simp
  have "applyFields ?s1 c = (Inl TypeError, snd (getUnpackedFields ?s1 c))"
    using flag later assms(2) by (intro applyFields_throws_in_general) simp_all
  with first later show ?thesis by simp
qed

text \<open>
  Claim C8 (after a first invocation of \<^verbatim>\<open>applyFields(C)\<close> every later one is a no-op,
  so that accessors are installed exactly once per class). For a class with one declared
  field the first invocation throws a TypeError before the guard flag is set (the
  descriptor of claim C4), and the second invocation is not a no-op: it runs the
  installation again and throws again. The flag is never set and the accessor for the
  field is never installed; no sequence of calls defines a property at all
  (\<open>prototype_run\<close>), and the second throw is general (\<open>applyFields_throws_again\<close>).
\<close>

theorem applyFields_never_installs:
  "fst (applyFields (snd (Field ''number'' idOptions User ''id'' initial)) User) = Inl TypeError
   \<and> fst (applyFields
            (snd (applyFields (snd (Field ''number'' idOptions User ''id'' initial)) User)) User)
       = Inl TypeError
   \<and> get (snd (applyFields
                 (snd (applyFields (snd (Field ''number'' idOptions User ''id'' initial)) User))
                 User))
        AreFieldsApplied User None = None
   \<and> prototype (snd (applyFields
                 (snd (applyFields (snd (Field ''number'' idOptions User ''id'' initial)) User))
                 User))
        User ''id'' = None"
  by (simp add: eval_defs)

text \<open>
  Claim C7: a call of \<^verbatim>\<open>getUnpackedOwnFields(C)\<close> (of \<^verbatim>\<open>getUnpackedFields(C)\<close>) made
  after an earlier one, with any calls of the interface in between, returns the list the
  earlier call returned and leaves the state as it is, so it is served from the cache; and
  from the initial state, whatever calls are made, the resolution mapping runs at most
  once for each class.
\<close>

theorem resolution_idempotent:
  "getUnpackedOwnFields (run (snd (getUnpackedOwnFields s c)) calls) c
     = (fst (getUnpackedOwnFields s c), run (snd (getUnpackedOwnFields s c)) calls)
   \<and> getUnpackedFields (run (snd (getUnpackedFields s c)) calls) c
     = (fst (getUnpackedFields s c), run (snd (getUnpackedFields s c)) calls)
   \<and> unpackRuns (run initial calls) c \<le> 1"
proof -
  have "runs_ok (run initial calls)"
    using preserves_run runs_ok_initial by (rule preserves_runsD)
  then have "unpackRuns (run initial calls) c \<le> 1"
    unfolding runs_ok_def by (metis le_numeral_extra(4) zero_le)
  then show ?thesis
    by (simp add: getUnpackedOwnFields_later getUnpackedFields_later preserves_run)
qed

text \<open>Claim C7 at a class resolved twice: the mapping has run once.\<close>

theorem resolution_idempotent_witness:
  "unpackRuns (run initial [GetUnpackedOwnFields classA, GetUnpackedFields classA]) classA = 1
  \<and> fst (getUnpackedOwnFields (run (snd (getUnpackedOwnFields initial classA)) [GetUnpackedFields classA]) classA) = []"
  using resolution_idempotent [of initial classA "[GetUnpackedFields classA]"]
  by (simp add: run_def eval_defs)

section \<open>The model introspector\<close>

lemma findPrimary_Some:
  "findPrimary c (Some p) fs =
     (case filter isPrimary fs of
        [] \<Rightarrow> Inr (Some p)
      | q # qs \<Rightarrow> Inl (PrimaryKeyAlreadyDefinedError c (Unpacked p) (Unpacked q)))"
  by (induction fs) simp_all

lemma findPrimary_None:
  "findPrimary c None fs =
     (case filter isPrimary fs of
        [] \<Rightarrow> Inr None
      | [p] \<Rightarrow> Inr (Some p)
      | p # q # qs \<Rightarrow> Inl (PrimaryKeyAlreadyDefinedError c (Unpacked p) (Unpacked q)))"
  by (induction fs) (simp_all add: findPrimary_Some split: list.splits)

text \<open>
  Claim C5, as the code has it: \<^verbatim>\<open>collectModelInformation(C)\<close> fails with ModelNotFound
  exactly when the getter yields \<^verbatim>\<open>null\<close> for C's collection name; otherwise with
  EmptyFieldsList exactly when \<^verbatim>\<open>getUnpackedFields(C)\<close> is empty; otherwise with
  PrimaryKeyNotDefined when no field of that list has \<^verbatim>\<open>isPrimary\<close>, with
  PrimaryKeyAlreadyDefined carrying the first and the second primary field when there are
  two or more, and with exactly one it returns the collection name, that field and the
  whole list.
\<close>

theorem collectModelInformation_outcome:
  "fst (collectModelInformation s c) =
     (case get s Collection c None of
        None \<Rightarrow> Inl (ModelNotFoundError c)
      | Some coll \<Rightarrow>
          if fst (getUnpackedFields s c) = [] then Inl (EmptyFieldsListError c)
          else (case filter isPrimary (fst (getUnpackedFields s c)) of
                  [] \<Rightarrow> Inl (PrimaryKeyNotDefinedError c)
                | [p] \<Rightarrow>
                    Inr \<lparr>collection = asString coll, primaryField = p,
                         allFields = fst (getUnpackedFields s c)\<rparr>
                | p # q # qs \<Rightarrow>
                    Inl (PrimaryKeyAlreadyDefinedError c (Unpacked p) (Unpacked q))))"
proof (cases "get s Collection c None")
  case None
  then show ?thesis by (simp add: collectModelInformation_def)
next
  case (Some coll)
  obtain us s1 where g: "getUnpackedFields s c = (us, s1)" by (cases "getUnpackedFields s c")
  show ?thesis
  proof (cases "us = []")
    case True
    with Some g show ?thesis by (simp add: collectModelInformation_def)
  next
    case False
    have "fst (collectModelInformation s c) =
            (case findPrimary c None us of
               Inl e \<Rightarrow> Inl e
             | Inr None \<Rightarrow> Inl (PrimaryKeyNotDefinedError c)
             | Inr (Some p) \<Rightarrow>
                 Inr \<lparr>collection = asString coll, primaryField = p, allFields = us\<rparr>)"
      using Some g False
      by (simp add: collectModelInformation_def split: sum.splits option.splits)
    also have "\<dots> =
            (case filter isPrimary us of
               [] \<Rightarrow> Inl (PrimaryKeyNotDefinedError c)
             | [p] \<Rightarrow> Inr \<lparr>collection = asString coll, primaryField = p, allFields = us\<rparr>
             | p # q # qs \<Rightarrow> Inl (PrimaryKeyAlreadyDefinedError c (Unpacked p) (Unpacked q)))"
      by (simp add: findPrimary_None split: list.splits)
    finally show ?thesis using Some g False by (simp split: list.splits)
  qed
qed

text \<open>Claim C5 at a model with one field, its primary key.\<close>

theorem collectModelInformation_outcome_witness:
  "fst (collectModelInformation userState User)
     = Inr \<lparr>collection = ''users'',
            primaryField = \<lparr>classPropertyName = ''id'', dbPropertyName = ''id'',
                            defaultValue = JUndefined, isNullable = True, fieldType = ''number'',
                            isPrimary = True\<rparr>,
            allFields = [\<lparr>classPropertyName = ''id'', dbPropertyName = ''id'',
                          defaultValue = JUndefined, isNullable = True, fieldType = ''number'',
                          isPrimary = True\<rparr>]\<rparr>"
  using collectModelInformation_outcome [of userState User]
  by (simp add: userState_def eval_defs)

text \<open>
  Claim C5 as stated (ModelNotFound if and only if C has no registered collection name)
  fails: a class whose registered collection name is the empty string has one, and gets
  ModelNotFound.
\<close>

theorem registered_collection_not_found:
  "metadata (defineModel initial User []) (User, None, Collection) = Some (MString [])
   \<and> fst (collectModelInformation (defineModel initial User []) User)
       = Inl (ModelNotFoundError User)"
  by (simp add: eval_defs)

text \<open>
  Claim C10: after \<^verbatim>\<open>defineModel(C, "")\<close> a collection name is registered on C
  (\<^verbatim>\<open>has\<close> reports it), yet \<^verbatim>\<open>get\<close> turns the falsy empty string into \<^verbatim>\<open>null\<close>, and
  \<^verbatim>\<open>collectModelInformation(C)\<close> fails with ModelNotFound, leaving the state as it was.
  The getter does the same to a stored \<^verbatim>\<open>false\<close>.
\<close>

theorem empty_collection_name:
  "has (defineModel s c []) Collection c None
   \<and> get (defineModel s c []) Collection c None = None
   \<and> collectModelInformation (defineModel s c []) c
       = (Inl (ModelNotFoundError c), defineModel s c [])
   \<and> get (set_meta k (MBool False) c pk s) k c pk = None"
  by (simp add: defineModel_def has_def get_def Reflect_hasMetadata_def
      collectModelInformation_def getMetadata_set_other_key)

lemma frame_getMetadata_other:
  "frame D s s' \<Longrightarrow> k \<noteq> UnpackedFields \<Longrightarrow>
   Reflect_getMetadata s' k e pk = Reflect_getMetadata s k e pk"
proof (induction e)
  case (Base n)
  then show ?case unfolding frame_def by (cases "metadata s' (Base n, pk, k) = metadata s (Base n, pk, k)") auto
next
  case (Extends n p)
  from Extends.prems have "metadata s' (Extends n p, pk, k) = metadata s (Extends n p, pk, k)"
    unfolding frame_def by blast
  with Extends show ?case by (simp split: option.splits)
qed

lemma frame_get_other:
  "frame D s s' \<Longrightarrow> k \<noteq> UnpackedFields \<Longrightarrow> get s' k e pk = get s k e pk"
  by (simp add: get_def frame_getMetadata_other)

lemma collectModelInformation_state:
  "snd (collectModelInformation s c) =
     (if get s Collection c None = None then s else snd (getUnpackedFields s c))"
  by (simp add: collectModelInformation_def split: option.splits prod.splits sum.splits)

lemma collectModelInformation_again:
  "collectModelInformation (snd (collectModelInformation s c)) c
     = (fst (collectModelInformation s c), snd (collectModelInformation s c))"
proof (cases "get s Collection c None")
  case None
  then show ?thesis by (simp add: collectModelInformation_def)
next
  case (Some coll)
  obtain fs s1 where g: "getUnpackedFields s c = (fs, s1)" by (cases "getUnpackedFields s c")
  have s1: "snd (collectModelInformation s c) = s1"
    using Some g by (simp add: collectModelInformation_state)
  have "frame (set (chain c)) s s1" using frame_getUnpackedFields [of c s] g by simp
  then have coll: "get s1 Collection c None = Some coll"
    using Some by (simp add: frame_get_other)
  have again: "getUnpackedFields s1 c = (fs, s1)"
    using getUnpackedFields_later [of s c s1] g by simp
  have "collectModelInformation s1 c = (fst (collectModelInformation s c), s1)"
    using Some g coll again
    by (simp add: collectModelInformation_def split: sum.splits option.splits)
  with s1 show ?thesis by simp
qed

text \<open>
  Claim C9, as the code has it: \<^verbatim>\<open>collectModelInformation(C)\<close>, whether it returns or
  fails, changes no prototype and no metadata entry other than resolved-field caches of
  classes on C's chain for which the getter found no cached list; when the getter yields
  no collection name it changes nothing; and a second call returns the same result and
  changes nothing.
\<close>

theorem collectModelInformation_frame:
  "prototype (snd (collectModelInformation s c)) = prototype s
   \<and> (metadata (snd (collectModelInformation s c)) (d, pk, k) \<noteq> metadata s (d, pk, k)
        \<longrightarrow> k = UnpackedFields \<and> pk = None \<and> d \<in> set (chain c)
            \<and> get s UnpackedFields d None = None)
   \<and> (get s Collection c None = None \<longrightarrow> snd (collectModelInformation s c) = s)
   \<and> collectModelInformation (snd (collectModelInformation s c)) c
        = (fst (collectModelInformation s c), snd (collectModelInformation s c))"
proof -
  have "frame (set (chain c)) s (snd (collectModelInformation s c))"
    using frame_getUnpackedFields [of c s] by (simp add: collectModelInformation_state)
  then have changed:
    "metadata (snd (collectModelInformation s c)) (d, pk, k) \<noteq> metadata s (d, pk, k)
        \<longrightarrow> k = UnpackedFields \<and> pk = None \<and> d \<in> set (chain c)
            \<and> get s UnpackedFields d None = None"
    unfolding frame_def by blast
  have proto: "prototype (snd (collectModelInformation s c)) = prototype s"
    by (rule prototype_collectModelInformation)
  have absent: "get s Collection c None = None \<longrightarrow> snd (collectModelInformation s c) = s"
    by (simp add: collectModelInformation_state)
  show ?thesis
    using proto changed absent collectModelInformation_again [of s c] by blast
qed

text \<open>
  Claim C9 as stated (the call leaves the resolved-field caches as they were) fails: the
  first call on a model with one field writes the class's cache.
\<close>

theorem collectModelInformation_writes_cache:
  "metadata userState (User, None, UnpackedFields) = None
   \<and> metadata (snd (collectModelInformation userState User)) (User, None, UnpackedFields)
       = Some (MUnpacked [\<lparr>classPropertyName = ''id'', dbPropertyName = ''id'',
                           defaultValue = JUndefined, isNullable = True, fieldType = ''number'',
                           isPrimary = True\<rparr>])"
  by (simp add: userState_def eval_defs)

text \<open>Claim C9, the amended statement at the cache entry that the first call writes.\<close>

theorem collectModelInformation_frame_witness:
  "metadata (snd (collectModelInformation userState User)) (User, None, UnpackedFields)
     \<noteq> metadata userState (User, None, UnpackedFields)
   \<and> User \<in> set (chain User) \<and> get userState UnpackedFields User None = None
   \<and> prototype (snd (collectModelInformation userState User)) = prototype userState"
  using collectModelInformation_frame [of userState User User None UnpackedFields]
  by (simp add: userState_def eval_defs)

end
